theory Spec2Isabelle
  imports Complex_Main "HOL-Library.Multiset"
begin

section \<open>Data model of \<open>deep_q_learning.py\<close>\<close>

text \<open>
  The embedding follows \<open>class DQNAgent\<close>. Python floats are read as \<^typ>\<open>real\<close>
  (rounding is not modelled), Python ints as \<^typ>\<open>int\<close>, and indices that the code only
  ever produces as non-negative numbers (actions) as \<^typ>\<open>nat\<close>. An observation is the
  row of the \<open>(1, state_size)\<close> array that \<open>_correct_state_size\<close> builds.
  Exceptions are values of \<open>error\<close>; a call that raises returns \<open>Inl\<close>.
\<close>

type_synonym state = "real list"

text \<open>The tuple \<open>(state, action, reward, next_state, done)\<close> of line 176.\<close>

type_synonym transition = "state \<times> nat \<times> real \<times> state \<times> bool"

datatype error = ValueError | IndexError | ZeroDivisionError

subsection \<open>\<open>collections.deque(maxlen=n)\<close>\<close>

record 'a deque =
  items :: "'a list"
  maxlen :: nat

text \<open>\<open>deque(maxlen=n)\<close> raises \<open>ValueError\<close> for a negative \<open>n\<close>.\<close>

definition deque_new :: "int \<Rightarrow> error + 'a deque" where
  "deque_new n = (if n < 0 then Inl ValueError else Inr \<lparr>items = [], maxlen = nat n\<rparr>)"

text \<open>\<open>append\<close> adds on the right and, when the bound is exceeded, drops on the left.\<close>

definition deque_append :: "'a deque \<Rightarrow> 'a \<Rightarrow> 'a deque" where
  "deque_append d x =
     (let ys = items d @ [x]
      in d\<lparr>items := (if maxlen d < length ys then tl ys else ys)\<rparr>)"

definition deque_len :: "'a deque \<Rightarrow> nat" where
  "deque_len d = length (items d)"

text \<open>A run of appends, in order, as the training loop performs them one per step.\<close>

fun deque_extend :: "'a deque \<Rightarrow> 'a list \<Rightarrow> 'a deque" where
  "deque_extend d [] = d"
| "deque_extend d (x # xs) = deque_extend (deque_append d x) xs"

subsection \<open>The Keras model\<close>

datatype activation = Relu | Linear

datatype layer = Dense (units: nat) (input_dim: "nat option") (act: activation)

text \<open>
  A compiled \<open>Sequential\<close> model: its layers, the loss, the learning rate of its Adam
  optimizer, and its parameters (opaque: \<open>'w\<close>).
\<close>

record 'w keras_model =
  layers :: "layer list"
  loss :: string
  optimizer_lr :: real
  weights :: 'w

subsection \<open>The agent\<close>

record ('w, 'e) agent =
  env :: 'e
  state_size :: nat
  action_size :: nat
  experience_replay :: "transition deque"
  gamma :: real
  epsilon :: real
  min_epsilon :: real
  epsilon_decay :: real
  learning_rate :: real
  steps_update_target_model :: int
  num_layers :: int
  q_value_model :: "'w keras_model"
  target_model :: "'w keras_model"
  last_100_rewards :: "real deque"

subsection \<open>External collaborators\<close>

text \<open>
  Keras, the Gym environment and Python's \<open>random\<close> module are outside the repository.
  Their operations are parameters of the model: \<open>predict\<close> returns the single row
  \<open>model.predict(state)[0]\<close>, \<open>fit\<close> the model after \<open>model.fit(states, targets,
  batch_size, initial_epoch)\<close> or the exception that call raises (Keras refuses, for
  one, an empty batch); \<open>random_random\<close> is \<open>random.random()\<close> and \<open>random_getrand\<close> the
  generator's next raw number.
\<close>

record ('w, 'e, 'r) collab =
  predict :: "'w keras_model \<Rightarrow> state \<Rightarrow> real list"
  fit :: "'w keras_model \<Rightarrow> state list \<Rightarrow> real list list \<Rightarrow> int \<Rightarrow> int
            \<Rightarrow> error + 'w keras_model"
  observation_dim :: "'e \<Rightarrow> nat"
  num_actions :: "'e \<Rightarrow> nat"
  env_reset :: "'e \<Rightarrow> state \<times> 'e"
  env_step :: "'e \<Rightarrow> nat \<Rightarrow> (state \<times> real \<times> bool) \<times> 'e"
  action_space_sample :: "'e \<Rightarrow> nat \<times> 'e"
  random_random :: "'r \<Rightarrow> real \<times> 'r"
  random_getrand :: "'r \<Rightarrow> nat \<times> 'r"

section \<open>Library functions the agent calls\<close>

text \<open>\<open>random.uniform(a, b)\<close> is \<open>a + (b - a) * random()\<close>.\<close>

definition random_uniform :: "('w, 'e, 'r) collab \<Rightarrow> 'r \<Rightarrow> real \<Rightarrow> real \<Rightarrow> real \<times> 'r" where
  "random_uniform ops r a b = (let (x, r') = random_random ops r in (a + (b - a) * x, r'))"

text \<open>
  \<open>randbelow(n)\<close>: a number below \<open>n\<close>, read off the generator's next raw number.
\<close>

definition randbelow :: "('w, 'e, 'r) collab \<Rightarrow> 'r \<Rightarrow> nat \<Rightarrow> nat \<times> 'r" where
  "randbelow ops r n = (let (x, r') = random_getrand ops r in (x mod n, r'))"

text \<open>
  \<open>random.sample(population, k)\<close>, the selection loop of CPython's \<open>Lib/random.py\<close>:
  \<^verbatim>\<open>
  n = len(population)
  if not 0 <= k <= n: raise ValueError("Sample larger than population or is negative")
  result = [None] * k
  pool = list(population)
  for i in range(k):
      j = randbelow(n - i)
      result[i] = pool[j]
      pool[j] = pool[n - i - 1]
  return result
  \<close>
  (For a large population CPython draws the \<open>k\<close> positions by rejection with a set of
  the selected positions instead; the outcomes are the same \<open>k\<close> distinct positions.)
  The loop state is the pool, the result so far and the generator.
\<close>

definition sample_step ::
  "('w, 'e, 'r) collab \<Rightarrow> nat \<Rightarrow> nat \<Rightarrow> 'a list \<times> 'a list \<times> 'r \<Rightarrow> 'a list \<times> 'a list \<times> 'r" where
  "sample_step ops n i s =
     (case s of (pool, result, r) \<Rightarrow>
        (let (j, r') = randbelow ops r (n - i)
         in (pool[j := pool ! (n - i - 1)], result @ [pool ! j], r')))"

definition random_sample ::
  "('w, 'e, 'r) collab \<Rightarrow> 'r \<Rightarrow> 'a list \<Rightarrow> int \<Rightarrow> error + ('a list \<times> 'r)" where
  "random_sample ops r population k =
     (let n = length population
      in if \<not> (0 \<le> k \<and> k \<le> int n) then Inl ValueError
         else (case fold (sample_step ops n) [0..<nat k] (population, [], r) of
                 (pool, result, r') \<Rightarrow> Inr (result, r')))"

text \<open>
  \<open>np.max\<close> and \<open>np.argmax\<close> of a one-dimensional array; both raise \<open>ValueError\<close> on an
  empty one. \<open>np.argmax\<close> scans from the left and moves only on a strictly larger entry.
\<close>

fun np_max :: "real list \<Rightarrow> error + real" where
  "np_max [] = Inl ValueError"
| "np_max (x # xs) = Inr (fold max xs x)"

fun argmax_scan :: "real list \<Rightarrow> real \<Rightarrow> nat \<Rightarrow> nat \<Rightarrow> nat" where
  "argmax_scan [] mp i best = best"
| "argmax_scan (x # xs) mp i best =
     (if mp < x then argmax_scan xs x (Suc i) i else argmax_scan xs mp (Suc i) best)"

fun np_argmax :: "real list \<Rightarrow> error + nat" where
  "np_argmax [] = Inl ValueError"
| "np_argmax (x # xs) = Inr (argmax_scan xs x 1 0)"

section \<open>The agent's methods\<close>

subsection \<open>\<open>_build_model\<close> (lines 67--83)\<close>

text \<open>The last argument is the fresh model's (randomly initialised) parameters.\<close>

definition build_model :: "nat \<Rightarrow> nat \<Rightarrow> int \<Rightarrow> real \<Rightarrow> 'w \<Rightarrow> 'w keras_model" where
  "build_model ssize asize nlayers lr w =
     \<lparr>layers =
        [Dense 32 (Some ssize) Relu, Dense 32 None Relu, Dense 32 None Relu, Dense 32 None Relu]
        @ (if nlayers = 5 then [Dense 32 None Relu, Dense 32 None Relu] else [])
        @ [Dense asize None Linear],
      loss = ''mse'', optimizer_lr = lr, weights = w\<rparr>"

subsection \<open>\<open>__init__\<close> (lines 26--65)\<close>


subsection \<open>\<open>_sample_action\<close> (lines 85--93)\<close>

definition sample_action ::
  "('w, 'e, 'r) collab \<Rightarrow> ('w, 'e) agent \<Rightarrow> 'r \<Rightarrow> state \<Rightarrow> error + (nat \<times> ('w, 'e) agent \<times> 'r)" where
  "sample_action ops ag r s =
     (let (u, r') = random_uniform ops r 0 1
      in if u < epsilon ag
         then (let (a, e') = action_space_sample ops (env ag) in Inr (a, ag\<lparr>env := e'\<rparr>, r'))
         else (case np_argmax (predict ops (q_value_model ag) s) of
                 Inl err \<Rightarrow> Inl err
               | Inr a \<Rightarrow> Inr (a, ag, r')))"

subsection \<open>\<open>_sample_batch\<close> (lines 95--99)\<close>

definition sample_batch ::
  "('w, 'e, 'r) collab \<Rightarrow> ('w, 'e) agent \<Rightarrow> 'r \<Rightarrow> int \<Rightarrow> error + (transition list \<times> 'r)" where
  "sample_batch ops ag r batch_size =
     random_sample ops r (items (experience_replay ag)) batch_size"

subsection \<open>\<open>_replay\<close> (lines 101--137)\<close>

text \<open>Lines 114--117: the target of one transition.\<close>

definition td_target ::
  "('w, 'e, 'r) collab \<Rightarrow> ('w, 'e) agent \<Rightarrow> real \<Rightarrow> state \<Rightarrow> bool \<Rightarrow> error + real" where
  "td_target ops ag reward next_state done =
     (if done then Inr reward
      else (case np_max (predict ops (target_model ag) next_state) of
              Inl err \<Rightarrow> Inl err
            | Inr m \<Rightarrow> Inr (reward + gamma ag * m)))"

text \<open>
  Lines 111--124: the loop over the minibatch, with the two lists it appends to.
  \<open>target_f[0][action] = target\<close> raises \<open>IndexError\<close> when \<open>action\<close> is out of range.
\<close>

fun replay_loop ::
  "('w, 'e, 'r) collab \<Rightarrow> ('w, 'e) agent \<Rightarrow> transition list \<Rightarrow> state list \<Rightarrow> real list list
     \<Rightarrow> error + (state list \<times> real list list)" where
  "replay_loop ops ag [] states_in_batch target_in_batch = Inr (states_in_batch, target_in_batch)"
| "replay_loop ops ag ((s, action, reward, next_state, done) # rest) states_in_batch target_in_batch =
     (case td_target ops ag reward next_state done of
        Inl err \<Rightarrow> Inl err
      | Inr target \<Rightarrow>
          (let target_f = predict ops (q_value_model ag) s
           in if action < length target_f
              then replay_loop ops ag rest (states_in_batch @ [s])
                     (target_in_batch @ [target_f[action := target]])
              else Inl IndexError))"

text \<open>Line 137.\<close>

definition decay_epsilon :: "('w, 'e) agent \<Rightarrow> ('w, 'e) agent" where
  "decay_epsilon ag = ag\<lparr>epsilon := max (min_epsilon ag) (epsilon ag * epsilon_decay ag)\<rparr>"

definition replay ::
  "('w, 'e, 'r) collab \<Rightarrow> ('w, 'e) agent \<Rightarrow> 'r \<Rightarrow> int \<Rightarrow> int \<Rightarrow> error + (('w, 'e) agent \<times> 'r)" where
  "replay ops ag r batch_size step_number =
     (if int (deque_len (experience_replay ag)) \<le> batch_size then Inr (ag, r)
      else (case sample_batch ops ag r batch_size of
              Inl err \<Rightarrow> Inl err
            | Inr (minibatch, r') \<Rightarrow>
                (case replay_loop ops ag minibatch [] [] of
                   Inl err \<Rightarrow> Inl err
                 | Inr (states_in_batch, target_in_batch) \<Rightarrow>
                     (case fit ops (q_value_model ag) states_in_batch target_in_batch
                             batch_size step_number of
                        Inl err \<Rightarrow> Inl err
                      | Inr fitted \<Rightarrow> Inr (decay_epsilon (ag\<lparr>q_value_model := fitted\<rparr>), r')))))"

subsection \<open>\<open>_correct_state_size\<close> (lines 139--143)\<close>

text \<open>\<open>np.reshape\<close> raises \<open>ValueError\<close> when the sizes differ.\<close>

definition correct_state_size :: "('w, 'e) agent \<Rightarrow> real list \<Rightarrow> error + state" where
  "correct_state_size ag s = (if length s = state_size ag then Inr s else Inl ValueError)"

subsection \<open>\<open>train_agent\<close> (lines 145--198)\<close>

text \<open>The variables of the two loops.\<close>

record ('w, 'e, 'r) run =
  agent_of :: "('w, 'e) agent"
  rng :: 'r
  cur_state :: state
  reward_in_episode :: real
  steps_till_update :: int
  total_steps :: int

text \<open>
  Lines 188--191: \<open>set_weights(get_weights())\<close> and the reset of the counter. The
  remainder by zero raises \<open>ZeroDivisionError\<close>.
\<close>

definition update_target ::
  "('w, 'e) agent \<Rightarrow> int \<Rightarrow> error + (('w, 'e) agent \<times> int)" where
  "update_target ag stu =
     (if steps_update_target_model ag = 0 then Inl ZeroDivisionError
      else if stu mod steps_update_target_model ag = 0
      then Inr (ag\<lparr>target_model := (target_model ag)\<lparr>weights := weights (q_value_model ag)\<rparr>\<rparr>, 1)
      else Inr (ag, stu))"

text \<open>
  Lines 166--194: one iteration of the inner loop. The flag of the result tells whether
  the iteration left the loop by \<open>break\<close>.
\<close>

definition train_step ::
  "('w, 'e, 'r) collab \<Rightarrow> int \<Rightarrow> ('w, 'e, 'r) run \<Rightarrow> error + (bool \<times> ('w, 'e, 'r) run)" where
  "train_step ops batch_size st =
     (case sample_action ops (agent_of st) (rng st) (cur_state st) of
        Inl err \<Rightarrow> Inl err
      | Inr (action, ag1, r1) \<Rightarrow>
          (case env_step ops (env ag1) action of
             ((next_raw, reward, done), e2) \<Rightarrow>
               (case correct_state_size ag1 next_raw of
                  Inl err \<Rightarrow> Inl err
                | Inr next_state \<Rightarrow>
                    (let ag2 = ag1\<lparr>env := e2,
                                    experience_replay :=
                                      deque_append (experience_replay ag1)
                                        (cur_state st, action, reward, next_state, done)\<rparr>;
                         st1 = st\<lparr>agent_of := ag2, rng := r1, cur_state := next_state,
                                  reward_in_episode := reward_in_episode st + reward\<rparr>
                     in if done then Inr (True, st1)
                        else (case replay ops ag2 r1 batch_size (total_steps st) of
                                Inl err \<Rightarrow> Inl err
                              | Inr (ag3, r3) \<Rightarrow>
                                  (case update_target ag3 (steps_till_update st) of
                                     Inl err \<Rightarrow> Inl err
                                   | Inr (ag4, stu) \<Rightarrow>
                                       Inr (False,
                                            st1\<lparr>agent_of := ag4, rng := r3,
                                                steps_till_update := stu + 1,
                                                total_steps := total_steps st + 1\<rparr>)))))))"

text \<open>Line 165: \<open>for step in range(1, steps_per_episode)\<close>, by the iterations left.\<close>

fun episode_loop ::
  "('w, 'e, 'r) collab \<Rightarrow> int \<Rightarrow> nat \<Rightarrow> ('w, 'e, 'r) run \<Rightarrow> error + ('w, 'e, 'r) run" where
  "episode_loop ops batch_size 0 st = Inr st"
| "episode_loop ops batch_size (Suc n) st =
     (case train_step ops batch_size st of
        Inl err \<Rightarrow> Inl err
      | Inr (brk, st') \<Rightarrow> if brk then Inr st' else episode_loop ops batch_size n st')"

text \<open>Lines 161--198: one episode.\<close>

definition run_episode ::
  "('w, 'e, 'r) collab \<Rightarrow> int \<Rightarrow> int \<Rightarrow> ('w, 'e, 'r) run \<Rightarrow> error + ('w, 'e, 'r) run" where
  "run_episode ops steps_per_episode batch_size st =
     (case env_reset ops (env (agent_of st)) of
        (s_raw, e1) \<Rightarrow>
          (case correct_state_size (agent_of st) s_raw of
             Inl err \<Rightarrow> Inl err
           | Inr s \<Rightarrow>
               (case episode_loop ops batch_size (nat (steps_per_episode - 1))
                       (st\<lparr>agent_of := (agent_of st)\<lparr>env := e1\<rparr>, cur_state := s,
                           reward_in_episode := 0\<rparr>) of
                  Inl err \<Rightarrow> Inl err
                | Inr st' \<Rightarrow>
                    Inr (st'\<lparr>agent_of := (agent_of st')
                               \<lparr>last_100_rewards :=
                                  deque_append (last_100_rewards (agent_of st'))
                                    (reward_in_episode st')\<rparr>\<rparr>))))"

text \<open>Line 160: \<open>for i in range(1, episodes + 1)\<close>, by the episodes left.\<close>

fun episodes_loop ::
  "('w, 'e, 'r) collab \<Rightarrow> int \<Rightarrow> int \<Rightarrow> nat \<Rightarrow> ('w, 'e, 'r) run \<Rightarrow> error + ('w, 'e, 'r) run" where
  "episodes_loop ops steps_per_episode batch_size 0 st = Inr st"
| "episodes_loop ops steps_per_episode batch_size (Suc n) st =
     (case run_episode ops steps_per_episode batch_size st of
        Inl err \<Rightarrow> Inl err
      | Inr st' \<Rightarrow> episodes_loop ops steps_per_episode batch_size n st')"

definition train_agent ::
  "('w, 'e, 'r) collab \<Rightarrow> ('w, 'e) agent \<Rightarrow> 'r \<Rightarrow> int \<Rightarrow> int \<Rightarrow> int \<Rightarrow> error + ('w, 'e, 'r) run" where
  "train_agent ops ag r episodes steps_per_episode batch_size =
     episodes_loop ops steps_per_episode batch_size (nat episodes)
       \<lparr>agent_of = ag, rng = r, cur_state = [], reward_in_episode = 0,
        steps_till_update = 1, total_steps = 1\<rparr>"

section \<open>A small world for concrete runs\<close>

text \<open>
  Collaborators on which the methods can be evaluated: a network whose parameters are a
  counter of the \<open>fit\<close> calls it has completed, which refuses an empty batch, and whose
  prediction is always \<open>[1, 0]\<close>;
  an environment whose state is the number of steps left before it reports \<open>done\<close>;
  a generator that counts its draws and whose \<open>random()\<close> is always \<open>1/2\<close>.
\<close>

definition toy_ops :: "(nat, nat, nat) collab" where
  "toy_ops =
     \<lparr>predict = (\<lambda>m s. [1, 0]),
      fit = (\<lambda>m xs ys b n. if xs = [] then Inl ValueError else Inr (m\<lparr>weights := Suc (weights m)\<rparr>)),
      observation_dim = (\<lambda>e. 1),
      num_actions = (\<lambda>e. 2),
      env_reset = (\<lambda>e. ([0], e)),
      env_step = (\<lambda>e a. (([0], 1, e = 0), e - 1)),
      action_space_sample = (\<lambda>e. (1, e)),
      random_random = (\<lambda>r. (1 / 2, Suc r)),
      random_getrand = (\<lambda>r. (r, Suc r))\<rparr>"

text \<open>
  \<open>DQNAgent(env, epsilon=0.01, steps_update_target_model=3)\<close> on that environment, the
  other arguments at their defaults.
\<close>

definition toy_agent :: "nat \<Rightarrow> (nat, nat) agent" where
  "toy_agent e =
     \<lparr>env = e, state_size = 1, action_size = 2,
      experience_replay = \<lparr>items = [], maxlen = 2000\<rparr>,
      gamma = 95 / 100, epsilon = 1 / 100, min_epsilon = 1 / 100, epsilon_decay = 995 / 1000,
      learning_rate = 1 / 1000, steps_update_target_model = 3, num_layers = 3,
      q_value_model = build_model 1 2 3 (1 / 1000) 0,
      target_model = build_model 1 2 3 (1 / 1000) 0,
      last_100_rewards = \<lparr>items = [], maxlen = 100\<rparr>\<rparr>"

text \<open>A buffer of three transitions, the last one terminal.\<close>

definition toy_buffer :: "transition deque" where
  "toy_buffer =
     \<lparr>items = [([0], 0, 1, [0], False), ([0], 1, 1, [0], False), ([0], 0, 2, [0], True)],
      maxlen = 2000\<rparr>"

text \<open>
  The loop variables at a step where both a learning update and a synchronisation are due:
  the buffer is larger than a batch of one, and the counter is a multiple of the interval.
  The environment reports \<open>done\<close> on its next step.
\<close>

definition toy_run :: "(nat, nat, nat) run" where
  "toy_run =
     \<lparr>agent_of = toy_agent 0\<lparr>epsilon := 1 / 4, experience_replay := toy_buffer\<rparr>,
      rng = 0, cur_state = [0], reward_in_episode = 0, steps_till_update = 3, total_steps = 4\<rparr>"

section \<open>The update rule as the specification words it\<close>

text \<open>
  The temporal-difference target of a transition with reward \<open>r\<close>, given the discount
  and the target network's prediction on the next state: the reward alone for a terminal
  transition, the reward plus the discounted maximum otherwise.
\<close>

definition spec_td_target :: "real \<Rightarrow> real \<Rightarrow> real list \<Rightarrow> bool \<Rightarrow> real" where
  "spec_td_target g r q_next done = (if done then r else r + g * Max (set q_next))"

text \<open>
  The vector fitted for a transition: the online network's prediction on its state with
  the entry of its action overwritten by the target.
\<close>

definition spec_target_vector ::
  "('w, 'e, 'r) collab \<Rightarrow> ('w, 'e) agent \<Rightarrow> transition \<Rightarrow> real list" where
  "spec_target_vector ops ag t =
     (case t of (s, a, r, s', done) \<Rightarrow>
        (predict ops (q_value_model ag) s)
          [a := spec_td_target (gamma ag) r (predict ops (target_model ag) s') done])"

text \<open>
  A transition the loop of \<open>_replay\<close> processes without raising: its action indexes the
  online prediction, and the target prediction is not empty when the maximum is taken.
\<close>

definition transition_ok :: "('w, 'e, 'r) collab \<Rightarrow> ('w, 'e) agent \<Rightarrow> transition \<Rightarrow> bool" where
  "transition_ok ops ag t =
     (case t of (s, a, r, s', done) \<Rightarrow>
        a < length (predict ops (q_value_model ag) s)
        \<and> (done \<or> predict ops (target_model ag) s' \<noteq> []))"

section \<open>The replay buffer\<close>

lemma deque_append_maxlen: "maxlen (deque_append d x) = maxlen d"
  by (simp add: deque_append_def Let_def)

lemma deque_extend_maxlen: "maxlen (deque_extend d xs) = maxlen d"
  by (induction xs arbitrary: d) (simp_all add: deque_append_maxlen)

lemma deque_extend_snoc: "deque_extend d (xs @ [x]) = deque_append (deque_extend d xs) x"
  by (induction xs arbitrary: d) simp_all

lemma tl_drop_snoc:
  "tl (drop (length xs - c) xs @ [x]) = drop (Suc (length xs) - c) (xs @ [x])" if "c \<le> length xs"
proof (cases "c = 0")
  case True
  then show ?thesis by simp
next
  case False
  with that have lt: "length xs - c < length xs" and s: "Suc (length xs) - c = Suc (length xs - c)"
    by arith+
  from lt have "drop (length xs - c) xs \<noteq> []" by simp
  then have "tl (drop (length xs - c) xs @ [x]) = tl (drop (length xs - c) xs) @ [x]"
    by simp
  also have "\<dots> = drop (Suc (length xs - c)) xs @ [x]"
    by (simp add: drop_Suc tl_drop)
  finally show ?thesis using lt by (simp add: s)
qed

text \<open>Appending to an empty deque keeps the last \<open>maxlen\<close> elements, in order.\<close>

lemma deque_extend_items:
  "items d = [] \<Longrightarrow> items (deque_extend d xs) = drop (length xs - maxlen d) xs"
proof (induction xs rule: rev_induct)
  case Nil
  then show ?case by simp
next
  case (snoc x xs)
  show ?case
  proof (cases "maxlen d \<le> length xs")
    case True
    then show ?thesis
      using snoc
      by (simp add: deque_extend_snoc deque_append_def deque_extend_maxlen tl_drop_snoc
               del: drop_append)
  next
    case False
    then show ?thesis
      using snoc by (simp add: deque_extend_snoc deque_append_def deque_extend_maxlen)
  qed
qed

text \<open>
  Claim C4. The buffer is the deque that \<open>__init__\<close> creates (line 50) and that
  \<open>train_agent\<close> appends to (line 176). After appending a sequence \<open>ts\<close> longer than the
  capacity to the fresh buffer, the buffer holds exactly the last \<open>maxlen\<close> elements of
  \<open>ts\<close> in their order and its size is \<open>maxlen\<close>; after every prefix of the appends the
  size is at most \<open>maxlen\<close>. \<open>deque_append\<close> has no error result: appending always
  succeeds.
\<close>

theorem replay_buffer_fifo:
  assumes "deque_new n = Inr d" and "maxlen d < length ts"
  shows "items (deque_extend d ts) = drop (length ts - maxlen d) ts
       \<and> deque_len (deque_extend d ts) = maxlen d
       \<and> (\<forall>k. deque_len (deque_extend d (take k ts)) \<le> maxlen d)"
proof -
  have e: "items d = []"
    using assms(1) by (auto simp: deque_new_def split: if_splits)
  have g: "items (deque_extend d xs) = drop (length xs - maxlen d) xs" for xs
    using deque_extend_items[OF e] .
  have "deque_len (deque_extend d (take k ts)) \<le> maxlen d" for k
    unfolding deque_len_def g by simp
  then show ?thesis
    using assms(2) by (simp add: g deque_len_def)
qed

theorem replay_buffer_fifo_witness:
  "deque_new 2 = Inr \<lparr>items = [], maxlen = 2\<rparr>
   \<and> items (deque_extend \<lparr>items = [], maxlen = 2\<rparr> [10, 20, 30 :: nat]) = [20, 30]
   \<and> deque_len (deque_extend \<lparr>items = [], maxlen = 2\<rparr> [10, 20, 30 :: nat]) = 2"
  using replay_buffer_fifo[of 2 "\<lparr>items = [], maxlen = 2\<rparr>" "[10, 20, 30 :: nat]"]
  by (simp add: deque_new_def)

section \<open>The network architecture\<close>

text \<open>
  Claim C10. For every depth selector other than 5 the model that \<open>_build_model\<close>
  returns has the four hidden layers of 32 units and the linear output layer, and is the
  model built for \<open>num_layers = 3\<close>. \<open>build_model\<close> has no error result.
\<close>

theorem build_model_base_architecture:
  "nlayers \<noteq> 5 \<Longrightarrow>
     layers (build_model ssize asize nlayers lr w) =
       [Dense 32 (Some ssize) Relu, Dense 32 None Relu, Dense 32 None Relu, Dense 32 None Relu,
        Dense asize None Linear]
     \<and> build_model ssize asize nlayers lr w = build_model ssize asize 3 lr w"
  by (simp add: build_model_def)

theorem build_model_base_architecture_witness:
  "(7::int) \<noteq> 5 \<and> layers (build_model 4 2 7 (1/1000) (0::nat)) =
       [Dense 32 (Some 4) Relu, Dense 32 None Relu, Dense 32 None Relu, Dense 32 None Relu,
        Dense 2 None Linear]
     \<and> build_model 4 2 7 (1/1000) (0::nat) = build_model 4 2 3 (1/1000) 0"
  using build_model_base_architecture[of 7 4 2 "1/1000" "0::nat"]
  by (simp add: build_model_def)

section \<open>Exploration: the decay of epsilon\<close>

lemma decay_epsilon_fields:
  "min_epsilon (decay_epsilon ag) = min_epsilon ag"
  "epsilon_decay (decay_epsilon ag) = epsilon_decay ag"
  "epsilon (decay_epsilon ag) = max (min_epsilon ag) (epsilon ag * epsilon_decay ag)"
  by (simp_all add: decay_epsilon_def)

lemma decay_epsilon_pow_fields:
  "min_epsilon ((decay_epsilon ^^ n) ag) = min_epsilon ag \<and>
   epsilon_decay ((decay_epsilon ^^ n) ag) = epsilon_decay ag"
  by (induction n) (simp_all add: decay_epsilon_fields)

lemma decay_epsilon_step:
  assumes "0 \<le> epsilon_decay ag" "epsilon_decay ag \<le> 1" "min_epsilon ag \<le> epsilon ag" "0 \<le> epsilon ag"
  shows "epsilon (decay_epsilon ag) \<le> epsilon ag" "min_epsilon ag \<le> epsilon (decay_epsilon ag)"
        "0 \<le> epsilon (decay_epsilon ag)"
proof -
  have "epsilon ag * epsilon_decay ag \<le> epsilon ag * 1"
    using assms by (intro mult_left_mono) simp_all
  then show "epsilon (decay_epsilon ag) \<le> epsilon ag"
    using assms by (simp add: decay_epsilon_fields)
  show "min_epsilon ag \<le> epsilon (decay_epsilon ag)"
    by (simp add: decay_epsilon_fields)
  have "0 \<le> epsilon ag * epsilon_decay ag" using assms by simp
  then show "0 \<le> epsilon (decay_epsilon ag)"
    by (simp add: decay_epsilon_fields max.coboundedI2)
qed

lemma decay_epsilon_inv:
  assumes "0 \<le> epsilon_decay ag" "epsilon_decay ag \<le> 1" "min_epsilon ag \<le> epsilon ag" "0 \<le> epsilon ag"
  shows "min_epsilon ag \<le> epsilon ((decay_epsilon ^^ n) ag) \<and> 0 \<le> epsilon ((decay_epsilon ^^ n) ag)"
proof (induction n)
  case 0
  then show ?case using assms by simp
next
  case (Suc n)
  let ?a = "(decay_epsilon ^^ n) ag"
  have f: "min_epsilon ?a = min_epsilon ag" "epsilon_decay ?a = epsilon_decay ag"
    using decay_epsilon_pow_fields[of n ag] by simp_all
  show ?case
    using decay_epsilon_step(2,3)[of ?a] Suc assms(1,2) by (simp add: f)
qed

text \<open>
  Claim C6, as amended. Line 137 is \<open>decay_epsilon\<close>. With a decay rate in \<open>[0, 1]\<close>, an
  initial epsilon that is at least \<open>min_epsilon\<close> and is not negative, every further
  application of the decay leaves epsilon no larger than it was, and epsilon never drops
  below \<open>min_epsilon\<close>. (Floats are read as reals.)
\<close>

theorem epsilon_decay_monotone:
  assumes "0 \<le> epsilon_decay ag" "epsilon_decay ag \<le> 1" "min_epsilon ag \<le> epsilon ag" "0 \<le> epsilon ag"
  shows "epsilon ((decay_epsilon ^^ Suc n) ag) \<le> epsilon ((decay_epsilon ^^ n) ag)
       \<and> min_epsilon ag \<le> epsilon ((decay_epsilon ^^ n) ag)"
proof -
  let ?a = "(decay_epsilon ^^ n) ag"
  have f: "min_epsilon ?a = min_epsilon ag" "epsilon_decay ?a = epsilon_decay ag"
    using decay_epsilon_pow_fields[of n ag] by simp_all
  have i: "min_epsilon ag \<le> epsilon ?a" "0 \<le> epsilon ?a"
    using decay_epsilon_inv[OF assms, of n] by simp_all
  have "epsilon (decay_epsilon ?a) \<le> epsilon ?a"
    using decay_epsilon_step(1)[of ?a] assms(1,2) i by (simp add: f)
  then show ?thesis using i by simp
qed

theorem epsilon_decay_monotone_witness:
  "0 \<le> epsilon_decay (toy_agent 0\<lparr>epsilon := 1\<rparr>)
   \<and> epsilon_decay (toy_agent 0\<lparr>epsilon := 1\<rparr>) \<le> 1
   \<and> min_epsilon (toy_agent 0\<lparr>epsilon := 1\<rparr>) \<le> epsilon (toy_agent 0\<lparr>epsilon := 1\<rparr>)
   \<and> 0 \<le> epsilon (toy_agent 0\<lparr>epsilon := 1\<rparr>)
   \<and> epsilon ((decay_epsilon ^^ Suc 2) (toy_agent 0\<lparr>epsilon := 1\<rparr>))
       \<le> epsilon ((decay_epsilon ^^ 2) (toy_agent 0\<lparr>epsilon := 1\<rparr>))
   \<and> min_epsilon (toy_agent 0\<lparr>epsilon := 1\<rparr>)
       \<le> epsilon ((decay_epsilon ^^ 2) (toy_agent 0\<lparr>epsilon := 1\<rparr>))
   \<and> epsilon ((decay_epsilon ^^ 2) (toy_agent 0\<lparr>epsilon := 1\<rparr>)) = 990025 / 1000000"
  using epsilon_decay_monotone[of "toy_agent 0\<lparr>epsilon := 1\<rparr>" 2]
  by (simp add: toy_agent_def decay_epsilon_def numeral_2_eq_2)

text \<open>
  The claim as stated, without the condition that epsilon is not negative, fails: the
  constructor accepts any numbers, and for \<open>epsilon = -1\<close>, \<open>min_epsilon = -2\<close> and a decay
  rate of \<open>1/2\<close> (which satisfy the stated conditions) one decay raises epsilon to
  \<open>-1/2\<close>.
\<close>

theorem epsilon_decay_negative_counterexample:
  "0 \<le> epsilon_decay (toy_agent 0\<lparr>epsilon := - 1, min_epsilon := - 2, epsilon_decay := 1 / 2\<rparr>)
   \<and> epsilon_decay (toy_agent 0\<lparr>epsilon := - 1, min_epsilon := - 2, epsilon_decay := 1 / 2\<rparr>) \<le> 1
   \<and> min_epsilon (toy_agent 0\<lparr>epsilon := - 1, min_epsilon := - 2, epsilon_decay := 1 / 2\<rparr>)
       \<le> epsilon (toy_agent 0\<lparr>epsilon := - 1, min_epsilon := - 2, epsilon_decay := 1 / 2\<rparr>)
   \<and> epsilon (toy_agent 0\<lparr>epsilon := - 1, min_epsilon := - 2, epsilon_decay := 1 / 2\<rparr>)
       < epsilon (decay_epsilon (toy_agent 0\<lparr>epsilon := - 1, min_epsilon := - 2, epsilon_decay := 1 / 2\<rparr>))"
  by (simp add: toy_agent_def decay_epsilon_def)

section \<open>Action selection\<close>

lemma argmax_scan_spec:
  assumes "length ps = i" "best < i" "ps ! best = mp"
    and "\<forall>y\<in>set ps. y \<le> mp" and "\<forall>j<best. ps ! j < mp"
  shows "argmax_scan xs mp i best < length (ps @ xs)
       \<and> (\<forall>y\<in>set (ps @ xs). y \<le> (ps @ xs) ! argmax_scan xs mp i best)
       \<and> (\<forall>j<argmax_scan xs mp i best. (ps @ xs) ! j < (ps @ xs) ! argmax_scan xs mp i best)"
  using assms
proof (induction xs arbitrary: ps i best mp)
  case Nil
  then show ?case by simp
next
  case (Cons x xs)
  show ?case
  proof (cases "mp < x")
    case True
    have a: "length (ps @ [x]) = Suc i" "i < Suc i" "(ps @ [x]) ! i = x"
      using Cons.prems(1) by (simp_all add: nth_append)
    have b: "\<forall>y\<in>set (ps @ [x]). y \<le> x"
      using Cons.prems(4) True by auto
    have c: "\<forall>j<i. (ps @ [x]) ! j < x"
    proof (intro allI impI)
      fix j assume "j < i"
      then have "ps ! j \<in> set ps" using Cons.prems(1) by simp
      then have "ps ! j \<le> mp" using Cons.prems(4) by blast
      then show "(ps @ [x]) ! j < x" using True \<open>j < i\<close> Cons.prems(1) by (simp add: nth_append)
    qed
    from Cons.IH[OF a b c] True show ?thesis by simp
  next
    case False
    have a: "length (ps @ [x]) = Suc i" "best < Suc i" "(ps @ [x]) ! best = mp"
      using Cons.prems(1,2,3) by (simp_all add: nth_append)
    have b: "\<forall>y\<in>set (ps @ [x]). y \<le> mp"
      using Cons.prems(4) False by auto
    have c: "\<forall>j<best. (ps @ [x]) ! j < mp"
      using Cons.prems(1,2,5) by (simp add: nth_append)
    from Cons.IH[OF a b c] False show ?thesis by simp
  qed
qed

lemma np_argmax_first_max:
  assumes "q \<noteq> []"
  shows "\<exists>a. np_argmax q = Inr a \<and> a < length q \<and> q ! a = Max (set q) \<and> (\<forall>j<a. q ! j < q ! a)"
proof -
  from assms obtain x xs where q: "q = x # xs" by (cases q) auto
  let ?a = "argmax_scan xs x 1 0"
  have s: "?a < length ([x] @ xs) \<and> (\<forall>y\<in>set ([x] @ xs). y \<le> ([x] @ xs) ! ?a)
       \<and> (\<forall>j<?a. ([x] @ xs) ! j < ([x] @ xs) ! ?a)"
    by (rule argmax_scan_spec) simp_all
  then have lt: "?a < length q" and ub: "\<forall>y\<in>set q. y \<le> q ! ?a" and fst: "\<forall>j<?a. q ! j < q ! ?a"
    by (simp_all add: q)
  have "Max (set q) = q ! ?a"
  proof (rule Max_eqI)
    show "finite (set q)" by simp
    show "y \<le> q ! ?a" if "y \<in> set q" for y using ub that by blast
    show "q ! ?a \<in> set q" using lt by simp
  qed
  then show ?thesis using lt fst by (simp add: q)
qed

lemma random_uniform_predict: "random_uniform (ops\<lparr>predict := p\<rparr>) r a b = random_uniform ops r a b"
  by (simp add: random_uniform_def)

text \<open>
  Claim C9. Let \<open>u\<close> be the draw \<open>random.uniform(0, 1)\<close> of line 89. When \<open>u \<ge> epsilon\<close>
  (and the prediction is not empty, as \<open>np.argmax\<close> requires), \<open>_sample_action\<close> returns an
  index of the online network's prediction that holds its maximum, and every entry before
  it is strictly smaller: ties go to the lowest index. When \<open>u < epsilon\<close> it returns the
  action that \<open>env.action_space.sample()\<close> gives, and the result does not depend on the
  network's \<open>predict\<close>: the approximator is not queried. (That the environment's sampler
  is uniform is a property of the environment, outside this model.)
\<close>

theorem sample_action_greedy_or_explore:
  assumes "random_uniform ops r 0 1 = (u, r')"
  shows "(epsilon ag \<le> u \<and> predict ops (q_value_model ag) s \<noteq> [] \<longrightarrow>
            (\<exists>a. sample_action ops ag r s = Inr (a, ag, r')
               \<and> a < length (predict ops (q_value_model ag) s)
               \<and> predict ops (q_value_model ag) s ! a = Max (set (predict ops (q_value_model ag) s))
               \<and> (\<forall>j<a. predict ops (q_value_model ag) s ! j < predict ops (q_value_model ag) s ! a)))
       \<and> (u < epsilon ag \<longrightarrow>
            sample_action ops ag r s =
              Inr (fst (action_space_sample ops (env ag)),
                   ag\<lparr>env := snd (action_space_sample ops (env ag))\<rparr>, r')
            \<and> (\<forall>p. sample_action (ops\<lparr>predict := p\<rparr>) ag r s = sample_action ops ag r s))"
proof (intro conjI impI)
  assume g: "epsilon ag \<le> u \<and> predict ops (q_value_model ag) s \<noteq> []"
  then obtain a where a: "np_argmax (predict ops (q_value_model ag) s) = Inr a"
      "a < length (predict ops (q_value_model ag) s)"
      "predict ops (q_value_model ag) s ! a = Max (set (predict ops (q_value_model ag) s))"
      "\<forall>j<a. predict ops (q_value_model ag) s ! j < predict ops (q_value_model ag) s ! a"
    using np_argmax_first_max by blast
  have "sample_action ops ag r s = Inr (a, ag, r')"
    using g a(1) assms by (simp add: sample_action_def)
  with a show "\<exists>a. sample_action ops ag r s = Inr (a, ag, r')
               \<and> a < length (predict ops (q_value_model ag) s)
               \<and> predict ops (q_value_model ag) s ! a = Max (set (predict ops (q_value_model ag) s))
               \<and> (\<forall>j<a. predict ops (q_value_model ag) s ! j < predict ops (q_value_model ag) s ! a)"
    by blast
next
  assume "u < epsilon ag"
  then show "sample_action ops ag r s =
              Inr (fst (action_space_sample ops (env ag)),
                   ag\<lparr>env := snd (action_space_sample ops (env ag))\<rparr>, r')"
    using assms by (simp add: sample_action_def split: prod.splits)
next
  assume "u < epsilon ag"
  then show "\<forall>p. sample_action (ops\<lparr>predict := p\<rparr>) ag r s = sample_action ops ag r s"
    using assms by (simp add: sample_action_def random_uniform_predict split: prod.splits)
qed

theorem sample_action_greedy_or_explore_witness:
  "random_uniform toy_ops 0 0 1 = (1 / 2, 1)
   \<and> epsilon (toy_agent 5) \<le> 1 / 2
   \<and> predict toy_ops (q_value_model (toy_agent 5)) [0] \<noteq> []
   \<and> sample_action toy_ops (toy_agent 5) 0 [0] = Inr (0, toy_agent 5, 1)
   \<and> 1 / 2 < epsilon (toy_agent 5\<lparr>epsilon := 1\<rparr>)
   \<and> sample_action toy_ops (toy_agent 5\<lparr>epsilon := 1\<rparr>) 0 [0]
        = Inr (1, toy_agent 5\<lparr>epsilon := 1\<rparr>, 1)"
proof -
  have u: "random_uniform toy_ops 0 0 1 = (1 / 2, 1)"
    by (simp add: random_uniform_def toy_ops_def)
  have g: "epsilon (toy_agent 5) \<le> 1 / 2" "predict toy_ops (q_value_model (toy_agent 5)) [0] \<noteq> []"
    by (simp_all add: toy_agent_def toy_ops_def)
  have x: "1 / 2 < epsilon (toy_agent 5\<lparr>epsilon := 1\<rparr>)"
    by simp
  have "sample_action toy_ops (toy_agent 5) 0 [0] = Inr (0, toy_agent 5, 1)"
    using sample_action_greedy_or_explore[OF u, of "toy_agent 5" "[0]"]
    by (auto simp: toy_ops_def toy_agent_def less_Suc_eq)
  moreover have "sample_action toy_ops (toy_agent 5\<lparr>epsilon := 1\<rparr>) 0 [0]
        = Inr (1, toy_agent 5\<lparr>epsilon := 1\<rparr>, 1)"
    using sample_action_greedy_or_explore[OF u, of "toy_agent 5\<lparr>epsilon := 1\<rparr>" "[0]"]
    by (simp add: toy_ops_def toy_agent_def)
  ultimately show ?thesis
    using u g x by simp
qed

section \<open>Sampling from the replay buffer\<close>

lemma pool_vacancy:
  assumes "j < Suc n" "Suc n \<le> length pool"
  shows "add_mset (pool ! j) (mset (take n (pool[j := pool ! n]))) = mset (take (Suc n) pool)"
proof -
  from assms have nl: "n < length pool" by arith
  have tk: "take (Suc n) pool = take n pool @ [pool ! n]"
    by (rule take_Suc_conv_app_nth[OF nl])
  show ?thesis
  proof (cases "j = n")
    case True
    then show ?thesis by (simp add: tk)
  next
    case False
    with assms have jl: "j < length (take n pool)" by simp
    have "mset (take n (pool[j := pool ! n])) = mset ((take n pool)[j := pool ! n])"
      by (simp add: take_update_swap)
    also have "\<dots> = add_mset (pool ! n) (mset (take n pool) - {#take n pool ! j#})"
      using mset_update[OF jl] .
    finally have e: "mset (take n (pool[j := pool ! n]))
            = add_mset (pool ! n) (mset (take n pool) - {#pool ! j#})"
      using jl by simp
    have "pool ! j \<in># mset (take n pool)"
      using nth_mem[OF jl] jl by simp
    then show ?thesis
      by (simp add: e tk)
  qed
qed

lemma sample_fold_invariant:
  assumes "i \<le> length population"
  shows "case fold (sample_step ops (length population)) [0..<i] (population, [], r) of
           (pool, result, r') \<Rightarrow>
             length pool = length population \<and> length result = i
             \<and> mset (take (length population - i) pool) + mset result = mset population"
  using assms
proof (induction i)
  case 0
  then show ?case by simp
next
  case (Suc i)
  obtain pool result r1 where st: "fold (sample_step ops (length population)) [0..<i] (population, [], r) = (pool, result, r1)"
    by (cases "fold (sample_step ops (length population)) [0..<i] (population, [], r)") auto
  from Suc st have inv: "length pool = length population" "length result = i"
      "mset (take (length population - i) pool) + mset result = mset population"
    by simp_all
  obtain x r2 where g: "random_getrand ops r1 = (x, r2)" by (cases "random_getrand ops r1") auto
  obtain n where m: "length population - i = Suc n"
    using Suc.prems by (cases "length population - i") auto
  have mle: "Suc n \<le> length pool" using m inv(1) by arith
  have jm: "x mod Suc n < Suc n" by simp
  have sw: "add_mset (pool ! (x mod Suc n)) (mset (take n (pool[x mod Suc n := pool ! n])))
            = mset (take (Suc n) pool)"
    by (rule pool_vacancy[OF jm mle])
  have d: "length population - Suc i = n" using m by arith
  have step: "fold (sample_step ops (length population)) [0..<Suc i] (population, [], r)
        = (pool[x mod Suc n := pool ! n], result @ [pool ! (x mod Suc n)], r2)"
    by (simp add: st sample_step_def randbelow_def g m)
  have "mset (take n (pool[x mod Suc n := pool ! n])) + mset (result @ [pool ! (x mod Suc n)])
          = mset (take (Suc n) pool) + mset result"
    using sw by simp
  also have "\<dots> = mset population"
    using inv(3) by (simp add: m)
  finally show ?case
    unfolding step using inv(1,2) by (simp add: d)
qed

lemma random_sample_ok:
  assumes "0 \<le> k" "k \<le> int (length population)"
  shows "\<exists>res r'. random_sample ops r population k = Inr (res, r')
           \<and> int (length res) = k \<and> mset res \<subseteq># mset population"
proof -
  have le: "nat k \<le> length population" using assms by simp
  obtain pool res r' where st:
    "fold (sample_step ops (length population)) [0..<nat k] (population, [], r) = (pool, res, r')"
    by (cases "fold (sample_step ops (length population)) [0..<nat k] (population, [], r)") auto
  from sample_fold_invariant[OF le, of ops r] st
  have inv: "length res = nat k" "mset (take (length population - nat k) pool) + mset res = mset population"
    by simp_all
  have "mset res \<subseteq># mset population"
    by (metis inv(2) mset_subset_eq_add_right)
  moreover have "random_sample ops r population k = Inr (res, r')"
    using assms by (simp add: random_sample_def st)
  ultimately show ?thesis using inv(1) assms(1) by simp
qed

lemma random_sample_error:
  "k < 0 \<or> int (length population) < k \<Longrightarrow> random_sample ops r population k = Inl ValueError"
  by (auto simp: random_sample_def)

lemma distinct_of_sub_mset: "mset xs \<subseteq># mset ys \<Longrightarrow> distinct ys \<Longrightarrow> distinct xs"
proof -
  assume sub: "mset xs \<subseteq># mset ys" and d: "distinct ys"
  have "count (mset xs) a = (if a \<in> set xs then 1 else 0)" for a
  proof (cases "a \<in> set xs")
    case True
    have "count (mset xs) a \<le> count (mset ys) a"
      using sub by (rule mset_subset_eq_count)
    also have "\<dots> \<le> 1"
      using d by (simp add: distinct_count_atmost_1)
    finally have le: "count (mset xs) a \<le> 1" .
    have "count (mset xs) a \<noteq> 0"
      using True by (simp add: count_eq_zero_iff)
    with le have "count (mset xs) a = 1" by arith
    with True show ?thesis by (simp only: if_True)
  next
    case False
    then have "count (mset xs) a = 0" by (simp add: count_eq_zero_iff)
    with False show ?thesis by (simp only: if_False)
  qed
  then show "distinct xs" by (simp only: distinct_count_atmost_1) simp
qed

text \<open>
  Claim C5, as amended. \<open>_sample_batch\<close> with \<open>0 < batch_size \<le> size\<close> returns a list of
  exactly \<open>batch_size\<close> transitions taken from distinct positions of the buffer (as
  multisets, the batch is contained in the buffer, so the batch has no repetitions when
  the buffer has none); with \<open>batch_size > size\<close> it fails, and the failure is the
  \<open>ValueError\<close> that \<open>random.sample\<close> raises.
\<close>

theorem sample_batch_contract:
  "(0 < k \<and> k \<le> int (deque_len (experience_replay ag)) \<longrightarrow>
      (\<exists>mb r'. sample_batch ops ag r k = Inr (mb, r')
         \<and> int (length mb) = k
         \<and> mset mb \<subseteq># mset (items (experience_replay ag))
         \<and> (distinct (items (experience_replay ag)) \<longrightarrow> distinct mb)))
   \<and> (int (deque_len (experience_replay ag)) < k \<longrightarrow> sample_batch ops ag r k = Inl ValueError)"
proof (intro conjI impI)
  assume a: "0 < k \<and> k \<le> int (deque_len (experience_replay ag))"
  then obtain res r' where s: "random_sample ops r (items (experience_replay ag)) k = Inr (res, r')"
      "int (length res) = k" "mset res \<subseteq># mset (items (experience_replay ag))"
    using random_sample_ok[of k "items (experience_replay ag)" ops r] by (auto simp: deque_len_def)
  then show "\<exists>mb r'. sample_batch ops ag r k = Inr (mb, r')
         \<and> int (length mb) = k
         \<and> mset mb \<subseteq># mset (items (experience_replay ag))
         \<and> (distinct (items (experience_replay ag)) \<longrightarrow> distinct mb)"
    using distinct_of_sub_mset[OF s(3)] by (auto simp: sample_batch_def)
next
  assume "int (deque_len (experience_replay ag)) < k"
  then show "sample_batch ops ag r k = Inl ValueError"
    by (simp add: sample_batch_def random_sample_error deque_len_def)
qed

theorem sample_batch_contract_witness:
  "0 < (2::int) \<and> 2 \<le> int (deque_len (experience_replay (toy_agent 0\<lparr>experience_replay := toy_buffer\<rparr>)))
   \<and> sample_batch toy_ops (toy_agent 0\<lparr>experience_replay := toy_buffer\<rparr>) 0 2
        = Inr ([([0], 0, 1, [0], False), ([0], 1, 1, [0], False)], 2)
   \<and> int (deque_len (experience_replay (toy_agent 0\<lparr>experience_replay := toy_buffer\<rparr>))) < 4
   \<and> sample_batch toy_ops (toy_agent 0\<lparr>experience_replay := toy_buffer\<rparr>) 0 4 = Inl ValueError"
  using sample_batch_contract[of 4 "toy_agent 0\<lparr>experience_replay := toy_buffer\<rparr>" toy_ops 0]
        sample_batch_contract[of 2 "toy_agent 0\<lparr>experience_replay := toy_buffer\<rparr>" toy_ops 0]
  by (simp add: sample_batch_def random_sample_def toy_agent_def toy_buffer_def sample_step_def
        randbelow_def toy_ops_def numeral_2_eq_2 deque_len_def)

text \<open>
  The claim as stated names the failure \<open>InsufficientDataError\<close>. The code defines no
  such exception and does not catch or translate what \<open>random.sample\<close> raises: asking
  for four transitions of a buffer of three fails with \<open>ValueError\<close>.
\<close>

theorem sample_batch_raises_value_error:
  "deque_len (experience_replay (toy_agent 0\<lparr>experience_replay := toy_buffer\<rparr>)) = 3
   \<and> sample_batch toy_ops (toy_agent 0\<lparr>experience_replay := toy_buffer\<rparr>) 0 4 = Inl ValueError"
  by (simp add: sample_batch_def random_sample_def toy_buffer_def deque_len_def)

section \<open>The learning update\<close>

lemma np_max_Max: "q \<noteq> [] \<Longrightarrow> np_max q = Inr (Max (set q))"
proof (cases q)
  case Nil
  assume "q \<noteq> []"
  with Nil show ?thesis by simp
next
  case (Cons x xs)
  have "Max (set (x # xs)) = fold max xs x" by (rule Max.set_eq_fold)
  with Cons show ?thesis by (simp del: set_simps)
qed

lemma td_target_spec:
  "done \<or> predict ops (target_model ag) s' \<noteq> [] \<Longrightarrow>
   td_target ops ag r s' done = Inr (spec_td_target (gamma ag) r (predict ops (target_model ag) s') done)"
  by (auto simp: td_target_def spec_td_target_def np_max_Max)

lemma td_target_error:
  "\<not> done \<Longrightarrow> predict ops (target_model ag) s' = [] \<Longrightarrow> td_target ops ag r s' done = Inl ValueError"
  by (simp add: td_target_def)

lemma replay_loop_acc:
  "replay_loop ops ag mb ss ts = Inr (S, T) \<longleftrightarrow>
     (\<forall>t\<in>set mb. transition_ok ops ag t)
     \<and> S = ss @ map fst mb \<and> T = ts @ map (spec_target_vector ops ag) mb"
proof (induction mb arbitrary: ss ts)
  case Nil
  then show ?case by auto
next
  case (Cons t mb)
  obtain s a r s' d where t: "t = (s, a, r, s', d)" by (cases t) auto
  show ?case
  proof (cases "transition_ok ops ag t")
    case True
    then have ok: "a < length (predict ops (q_value_model ag) s)"
        "d \<or> predict ops (target_model ag) s' \<noteq> []"
      by (simp_all add: transition_ok_def t)
    show ?thesis
      using True ok(1) td_target_spec[OF ok(2), of r]
      by (simp add: t Cons.IH spec_target_vector_def)
  next
    case False
    then consider "\<not> d" "predict ops (target_model ag) s' = []"
      | "d \<or> predict ops (target_model ag) s' \<noteq> []" "\<not> a < length (predict ops (q_value_model ag) s)"
      by (auto simp: transition_ok_def t)
    then have "replay_loop ops ag (t # mb) ss ts \<noteq> Inr (S, T)"
    proof cases
      case 1
      then show ?thesis by (simp add: t td_target_error)
    next
      case 2
      then show ?thesis using td_target_spec[OF 2(1), of r] by (simp add: t)
    qed
    with False show ?thesis by simp
  qed
qed

lemma replay_sampled:
  assumes "batch_size < int (deque_len (experience_replay ag))"
    and "sample_batch ops ag r batch_size = Inr (mb, r')"
  shows "replay ops ag r batch_size step =
           (case replay_loop ops ag mb [] [] of
              Inl err \<Rightarrow> Inl err
            | Inr (S, T) \<Rightarrow>
                (case fit ops (q_value_model ag) S T batch_size step of
                   Inl err \<Rightarrow> Inl err
                 | Inr m \<Rightarrow> Inr (decay_epsilon (ag\<lparr>q_value_model := m\<rparr>), r')))"
  using assms by (simp add: replay_def)

text \<open>
  On a minibatch whose transitions can all be processed, the update is the fit on the
  vectors of the specification followed by the decay; it raises what the fit raises.
\<close>

lemma replay_processable:
  assumes "batch_size < int (deque_len (experience_replay ag))"
    and "sample_batch ops ag r batch_size = Inr (mb, r')"
    and "\<forall>t\<in>set mb. transition_ok ops ag t"
  shows "replay ops ag r batch_size step =
           (case fit ops (q_value_model ag) (map fst mb) (map (spec_target_vector ops ag) mb)
                   batch_size step of
              Inl err \<Rightarrow> Inl err
            | Inr m \<Rightarrow> Inr (decay_epsilon (ag\<lparr>q_value_model := m\<rparr>), r'))"
proof -
  have "replay_loop ops ag mb [] [] = Inr (map fst mb, map (spec_target_vector ops ag) mb)"
    using replay_loop_acc[of ops ag mb "[]" "[]"] assms(3) by simp
  then show ?thesis
    by (simp add: replay_sampled[OF assms(1,2)])
qed

text \<open>A minibatch with a transition that cannot be processed makes the update raise.\<close>

lemma replay_unprocessable:
  assumes "batch_size < int (deque_len (experience_replay ag))"
    and "sample_batch ops ag r batch_size = Inr (mb, r')"
    and "\<not> (\<forall>t\<in>set mb. transition_ok ops ag t)"
  shows "replay ops ag r batch_size step \<noteq> Inr (ag', r'')"
proof (cases "replay_loop ops ag mb [] []")
  case (Inl err)
  then show ?thesis by (simp add: replay_sampled[OF assms(1,2)])
next
  case (Inr p)
  obtain S T where "p = (S, T)" by (cases p) auto
  with Inr assms(3) show ?thesis
    using replay_loop_acc[of ops ag mb "[]" "[]" S T] by simp
qed

text \<open>
  The vector of the specification differs from the online prediction at most at the
  entry of the action, which holds the target.
\<close>

lemma spec_target_vector_entries:
  "length (spec_target_vector ops ag (s, a, rw, nxt, d)) = length (predict ops (q_value_model ag) s)"
  "a < length (predict ops (q_value_model ag) s) \<Longrightarrow>
     spec_target_vector ops ag (s, a, rw, nxt, d) ! a
       = spec_td_target (gamma ag) rw (predict ops (target_model ag) nxt) d"
  "j \<noteq> a \<Longrightarrow>
     spec_target_vector ops ag (s, a, rw, nxt, d) ! j = predict ops (q_value_model ag) s ! j"
  by (simp_all add: spec_target_vector_def)

text \<open>
  Claim C1. The target of a terminal transition is its reward, whatever the discount and
  the target network are; the target of a non-terminal one is the reward plus the discount
  times the maximum of the \<^emph>\<open>target\<close> network's prediction on the next state. When
  \<open>_replay\<close> runs on a sampled minibatch \<open>mb\<close>, it returns normally exactly when every
  transition of \<open>mb\<close> can be processed and the fit does not raise, and the fit is one call
  on the states of \<open>mb\<close> and, for each transition, on the online network's prediction on
  its state with only the entry of its action overwritten by its target
  (\<open>spec_target_vector\<close>); the online network afterwards is the fitted one.
\<close>

theorem replay_fits_td_targets:
  "td_target ops ag rw nxt True = Inr rw
   \<and> (predict ops (target_model ag) nxt \<noteq> [] \<longrightarrow>
        td_target ops ag rw nxt False
          = Inr (rw + gamma ag * Max (set (predict ops (target_model ag) nxt))))
   \<and> (batch_size < int (deque_len (experience_replay ag))
        \<and> sample_batch ops ag r batch_size = Inr (mb, r') \<longrightarrow>
        (replay ops ag r batch_size step = Inr (ag', r'') \<longleftrightarrow>
           (\<forall>t\<in>set mb. transition_ok ops ag t) \<and> r'' = r'
           \<and> (\<exists>m. fit ops (q_value_model ag) (map fst mb)
                      (map (spec_target_vector ops ag) mb) batch_size step = Inr m
                  \<and> ag' = decay_epsilon (ag\<lparr>q_value_model := m\<rparr>))))"
proof (intro conjI impI)
  show "td_target ops ag rw nxt True = Inr rw"
    by (simp add: td_target_def)
next
  assume "predict ops (target_model ag) nxt \<noteq> []"
  then show "td_target ops ag rw nxt False
          = Inr (rw + gamma ag * Max (set (predict ops (target_model ag) nxt)))"
    by (simp add: td_target_def np_max_Max)
next
  assume a: "batch_size < int (deque_len (experience_replay ag))
        \<and> sample_batch ops ag r batch_size = Inr (mb, r')"
  show "replay ops ag r batch_size step = Inr (ag', r'') \<longleftrightarrow>
           (\<forall>t\<in>set mb. transition_ok ops ag t) \<and> r'' = r'
           \<and> (\<exists>m. fit ops (q_value_model ag) (map fst mb)
                      (map (spec_target_vector ops ag) mb) batch_size step = Inr m
                  \<and> ag' = decay_epsilon (ag\<lparr>q_value_model := m\<rparr>))"
  proof (cases "\<forall>t\<in>set mb. transition_ok ops ag t")
    case True
    show ?thesis
      using True replay_processable[of batch_size ag ops r mb r' step] a
      by (auto split: sum.splits)
  next
    case False
    then show ?thesis
      using replay_unprocessable[of batch_size ag ops r mb r' step ag' r''] a by simp
  qed
qed

theorem replay_fits_td_targets_witness:
  "td_target toy_ops (toy_agent 0) 2 [0] True = Inr 2
   \<and> td_target toy_ops (toy_agent 0) 1 [0] False = Inr (39 / 20)
   \<and> 2 < int (deque_len (experience_replay (toy_agent 0\<lparr>experience_replay := toy_buffer\<rparr>)))
   \<and> sample_batch toy_ops (toy_agent 0\<lparr>experience_replay := toy_buffer\<rparr>) 2 2
        = Inr ([([0], 0, 2, [0], True), ([0], 1, 1, [0], False)], 4)
   \<and> fit toy_ops (q_value_model (toy_agent 0)) [[0], [0]] [[2, 0], [1, 39 / 20]] 2 7
        = Inr ((q_value_model (toy_agent 0))\<lparr>weights := 1\<rparr>)
   \<and> replay toy_ops (toy_agent 0\<lparr>experience_replay := toy_buffer\<rparr>) 2 2 7
        = Inr (decay_epsilon
                 (toy_agent 0
                    \<lparr>experience_replay := toy_buffer,
                     q_value_model := (q_value_model (toy_agent 0))\<lparr>weights := 1\<rparr>\<rparr>),
               4)"
proof -
  let ?ag = "toy_agent 0\<lparr>experience_replay := toy_buffer\<rparr>"
  let ?mb = "[([0], 0, 2, [0], True), ([0], 1, 1, [0], False)] :: transition list"
  have t: "td_target toy_ops (toy_agent 0) 2 [0] True = Inr 2"
      "td_target toy_ops (toy_agent 0) 1 [0] False = Inr (39 / 20)"
    using replay_fits_td_targets[of toy_ops "toy_agent 0" 2 "[0]"]
          replay_fits_td_targets[of toy_ops "toy_agent 0" 1 "[0]"]
    by (simp_all add: toy_ops_def toy_agent_def)
  have l: "2 < int (deque_len (experience_replay ?ag))"
    by (simp add: deque_len_def toy_buffer_def)
  have s: "sample_batch toy_ops ?ag 2 2 = Inr (?mb, 4)"
    by code_simp
  have ok: "\<forall>t\<in>set ?mb. transition_ok toy_ops ?ag t"
    by (simp add: transition_ok_def toy_ops_def)
  have v: "map (spec_target_vector toy_ops ?ag) ?mb = [[2, 0], [1, 39 / 20]]"
    by (simp add: spec_target_vector_def spec_td_target_def toy_ops_def toy_agent_def)
  have q: "q_value_model ?ag = q_value_model (toy_agent 0)"
    by simp
  have f: "fit toy_ops (q_value_model (toy_agent 0)) [[0], [0]] [[2, 0], [1, 39 / 20]] 2 7
        = Inr ((q_value_model (toy_agent 0))\<lparr>weights := 1\<rparr>)"
    by (simp add: toy_ops_def toy_agent_def build_model_def)
  have f': "fit toy_ops (q_value_model ?ag) (map fst ?mb) (map (spec_target_vector toy_ops ?ag) ?mb) 2 7
        = Inr ((q_value_model (toy_agent 0))\<lparr>weights := 1\<rparr>)"
    unfolding v q using f by simp
  have "replay toy_ops ?ag 2 2 7
        = Inr (decay_epsilon (?ag\<lparr>q_value_model := (q_value_model (toy_agent 0))\<lparr>weights := 1\<rparr>\<rparr>), 4)"
    using replay_fits_td_targets
            [of toy_ops ?ag 0 "[]" 2 2 ?mb 4 7
                "decay_epsilon (?ag\<lparr>q_value_model := (q_value_model (toy_agent 0))\<lparr>weights := 1\<rparr>\<rparr>)" 4]
          l s ok f'
    by blast
  then show ?thesis
    using t l s f by simp
qed




section \<open>The training loop\<close>

lemma sample_action_agent:
  "sample_action ops ag r s = Inr (a, ag1, r1) \<Longrightarrow> ag1 = ag\<lparr>env := env ag1\<rparr>"
  by (auto simp: sample_action_def Let_def split: prod.splits if_splits sum.splits)

text \<open>
  Claim C7. When the environment reports \<open>done\<close> on a step (and the step raises
  nothing), the iteration appends the transition to the replay buffer and leaves the
  loop: the episode ends with the state of that iteration, both networks, epsilon and
  the two step counters are what they were, so neither a learning update nor a
  synchronisation of the target network has taken place.
\<close>

theorem terminal_step_appends_and_stops:
  assumes "sample_action ops (agent_of st) (rng st) (cur_state st) = Inr (a, ag1, r1)"
    and "env_step ops (env ag1) a = ((nxt, reward, True), e2)"
    and "length nxt = state_size (agent_of st)"
  shows "\<exists>st'. train_step ops batch_size st = Inr (True, st')
     \<and> episode_loop ops batch_size (Suc n) st = Inr st'
     \<and> experience_replay (agent_of st')
         = deque_append (experience_replay (agent_of st)) (cur_state st, a, reward, nxt, True)
     \<and> q_value_model (agent_of st') = q_value_model (agent_of st)
     \<and> target_model (agent_of st') = target_model (agent_of st)
     \<and> epsilon (agent_of st') = epsilon (agent_of st)
     \<and> steps_till_update st' = steps_till_update st
     \<and> total_steps st' = total_steps st"
proof -
  have ag1: "ag1 = (agent_of st)\<lparr>env := env ag1\<rparr>"
    using sample_action_agent[OF assms(1)] .
  have sz: "correct_state_size ag1 nxt = Inr nxt"
    using assms(3) by (subst ag1) (simp add: correct_state_size_def)
  let ?st' = "st\<lparr>agent_of := ag1\<lparr>env := e2,
                         experience_replay :=
                           deque_append (experience_replay ag1) (cur_state st, a, reward, nxt, True)\<rparr>,
                 rng := r1, cur_state := nxt,
                 reward_in_episode := reward_in_episode st + reward\<rparr>"
  have ts: "train_step ops batch_size st = Inr (True, ?st')"
    by (simp add: train_step_def assms(1,2) sz)
  have f: "experience_replay ag1 = experience_replay (agent_of st)"
      "q_value_model ag1 = q_value_model (agent_of st)"
      "target_model ag1 = target_model (agent_of st)"
      "epsilon ag1 = epsilon (agent_of st)"
    by (subst ag1, simp)+
  show ?thesis
    by (rule exI[of _ ?st']) (simp add: ts f)
qed

theorem terminal_step_appends_and_stops_witness:
  "sample_action toy_ops (agent_of toy_run) (rng toy_run) (cur_state toy_run)
     = Inr (0, agent_of toy_run, 1)
   \<and> env_step toy_ops (env (agent_of toy_run)) 0 = (([0], 1, True), 0)
   \<and> length [0 :: real] = state_size (agent_of toy_run)
   \<and> (\<exists>st'. train_step toy_ops 1 toy_run = Inr (True, st')
          \<and> episode_loop toy_ops 1 (Suc 5) toy_run = Inr st'
          \<and> items (experience_replay (agent_of st')) = items toy_buffer @ [([0], 0, 1, [0], True)]
          \<and> weights (q_value_model (agent_of st')) = 0
          \<and> weights (target_model (agent_of st')) = 0
          \<and> epsilon (agent_of st') = 1 / 4
          \<and> steps_till_update st' = 3 \<and> total_steps st' = 4)"
proof -
  have a: "sample_action toy_ops (agent_of toy_run) (rng toy_run) (cur_state toy_run)
     = Inr (0, agent_of toy_run, 1)"
    by (simp add: toy_run_def sample_action_def random_uniform_def toy_ops_def toy_agent_def)
  have b: "env_step toy_ops (env (agent_of toy_run)) 0 = (([0], 1, True), 0)"
    by (simp add: toy_run_def toy_ops_def toy_agent_def)
  have c: "length [0 :: real] = state_size (agent_of toy_run)"
    by (simp add: toy_run_def toy_agent_def)
  obtain st' where s: "train_step toy_ops 1 toy_run = Inr (True, st')"
      "episode_loop toy_ops 1 (Suc 5) toy_run = Inr st'"
      "experience_replay (agent_of st')
         = deque_append (experience_replay (agent_of toy_run)) (cur_state toy_run, 0, 1, [0], True)"
      "q_value_model (agent_of st') = q_value_model (agent_of toy_run)"
      "target_model (agent_of st') = target_model (agent_of toy_run)"
      "epsilon (agent_of st') = epsilon (agent_of toy_run)"
      "steps_till_update st' = steps_till_update toy_run"
      "total_steps st' = total_steps toy_run"
    using terminal_step_appends_and_stops[OF a b c, of 1 5] by blast
  have "items (experience_replay (agent_of st')) = items toy_buffer @ [([0], 0, 1, [0], True)]"
    unfolding s(3) by (simp add: toy_run_def deque_append_def toy_buffer_def)
  moreover have "weights (q_value_model (agent_of st')) = 0" "weights (target_model (agent_of st')) = 0"
      "epsilon (agent_of st') = 1 / 4" "steps_till_update st' = 3" "total_steps st' = 4"
    unfolding s(4,5,6,7,8) by (simp_all add: toy_run_def toy_agent_def build_model_def)
  ultimately show ?thesis
    using a b c s(1,2) by blast
qed

lemma sample_action_frame:
  assumes "sample_action ops ag r s = Inr (a, ag1, r1)"
  shows "target_model ag1 = target_model ag" "q_value_model ag1 = q_value_model ag"
    "steps_update_target_model ag1 = steps_update_target_model ag"
  by (subst sample_action_agent[OF assms], simp)+

lemma replay_frame:
  assumes "replay ops ag r batch_size step = Inr (ag', r')"
  shows "target_model ag' = target_model ag"
    "steps_update_target_model ag' = steps_update_target_model ag"
  using assms
  by (auto simp: replay_def decay_epsilon_def split: if_splits sum.splits prod.splits)

text \<open>
  What one iteration does to the target network and to the counter (lines 188--193).
  The target network changes only in an iteration that does not break and finds the
  counter a multiple of \<open>steps_update_target_model\<close>; it then receives the online
  network's parameters. After such an iteration the counter is 2; after any other
  iteration that does not break it is one more than before.
\<close>

theorem target_changes_only_on_sync:
  assumes "train_step ops batch_size st = Inr (brk, st')"
  shows "target_model (agent_of st') =
           (if \<not> brk \<and> steps_till_update st mod steps_update_target_model (agent_of st) = 0
            then (target_model (agent_of st))\<lparr>weights := weights (q_value_model (agent_of st'))\<rparr>
            else target_model (agent_of st))
       \<and> steps_till_update st' =
           (if brk then steps_till_update st
            else if steps_till_update st mod steps_update_target_model (agent_of st) = 0 then 2
            else steps_till_update st + 1)"
proof -
  obtain a ag1 r1 where sa: "sample_action ops (agent_of st) (rng st) (cur_state st) = Inr (a, ag1, r1)"
    using assms by (auto simp: train_step_def Let_def split: sum.splits)
  obtain nxt reward d e2 where es: "env_step ops (env ag1) a = ((nxt, reward, d), e2)"
    by (cases "env_step ops (env ag1) a") auto
  have cs: "correct_state_size ag1 nxt = Inr nxt"
    using assms sa es by (auto simp: train_step_def correct_state_size_def split: sum.splits if_splits)
  let ?ag2 = "ag1\<lparr>env := e2, experience_replay :=
                 deque_append (experience_replay ag1) (cur_state st, a, reward, nxt, d)\<rparr>"
  note f1 = sample_action_frame[OF sa]
  show ?thesis
  proof (cases d)
    case True
    then have "brk" "st' = st\<lparr>agent_of := ?ag2, rng := r1, cur_state := nxt,
                 reward_in_episode := reward_in_episode st + reward\<rparr>"
      using assms sa es cs by (simp_all add: train_step_def Let_def)
    then show ?thesis by (simp add: f1)
  next
    case False
    then obtain ag3 r3 where rp: "replay ops ?ag2 r1 batch_size (total_steps st) = Inr (ag3, r3)"
      using assms sa es cs by (auto simp: train_step_def Let_def split: sum.splits)
    note f3 = replay_frame[OF rp]
    obtain ag4 stu where ut: "update_target ag3 (steps_till_update st) = Inr (ag4, stu)"
      using assms sa es cs False rp by (auto simp: train_step_def Let_def split: sum.splits)
    have r: "\<not> brk" "agent_of st' = ag4" "steps_till_update st' = stu + 1"
      using assms sa es cs False rp ut by (auto simp: train_step_def Let_def)
    have t3: "target_model ag3 = target_model (agent_of st)"
      and n3: "steps_update_target_model ag3 = steps_update_target_model (agent_of st)"
      using f3 f1 by simp_all
    show ?thesis
    proof (cases "steps_till_update st mod steps_update_target_model (agent_of st) = 0")
      case True
      with ut have "ag4 = ag3\<lparr>target_model := (target_model ag3)\<lparr>weights := weights (q_value_model ag3)\<rparr>\<rparr>"
          "stu = 1"
        by (simp_all add: update_target_def n3 split: if_splits)
      then show ?thesis
        using True by (simp add: r t3)
    next
      case False
      with ut have "ag4 = ag3" "stu = steps_till_update st"
        by (simp_all add: update_target_def n3 split: if_splits)
      then show ?thesis
        using False by (simp add: r t3)
    qed
  qed
qed

theorem target_changes_only_on_sync_witness:
  "(\<exists>st'. train_step toy_ops 1 (toy_run\<lparr>agent_of := (agent_of toy_run)\<lparr>env := 7\<rparr>\<rparr>) = Inr (False, st')
       \<and> weights (target_model (agent_of st')) = 1 \<and> steps_till_update st' = 2)"
proof -
  let ?st = "toy_run\<lparr>agent_of := (agent_of toy_run)\<lparr>env := 7\<rparr>\<rparr>"
  have "case train_step toy_ops 1 ?st of
          Inl err \<Rightarrow> False
        | Inr (b, st') \<Rightarrow> \<not> b \<and> weights (q_value_model (agent_of st')) = 1"
    by code_simp
  then obtain st' where s: "train_step toy_ops 1 ?st = Inr (False, st')"
      "weights (q_value_model (agent_of st')) = 1"
    by (auto split: sum.splits)
  have "weights (target_model (agent_of st')) = 1 \<and> steps_till_update st' = 2"
    using target_changes_only_on_sync[OF s(1)] s(2) by (simp add: toy_run_def toy_agent_def)
  with s(1) show ?thesis by blast
qed

text \<open>
  Claim C2 fails on the code. With \<open>steps_update_target_model = 3\<close>, a batch size of 1
  and an environment that never reports \<open>done\<close>, the online parameters count the fits
  (one per step from the second step on). After four steps the target holds the
  parameters copied at the third step; after five steps it already holds those of the
  fifth step: the second synchronisation comes two steps after the first, not three,
  because line 191 resets the counter to 1 and line 193 then increments it.
\<close>

theorem target_sync_every_interval_minus_one:
  "(case train_agent toy_ops (toy_agent 100) 0 1 5 1 of
      Inl err \<Rightarrow> False
    | Inr st \<Rightarrow> weights (q_value_model (agent_of st)) = 3
              \<and> weights (target_model (agent_of st)) = 2
              \<and> steps_till_update st = 3)
   \<and> (case train_agent toy_ops (toy_agent 100) 0 1 6 1 of
      Inl err \<Rightarrow> False
    | Inr st \<Rightarrow> weights (q_value_model (agent_of st)) = 4
              \<and> weights (target_model (agent_of st)) = 4
              \<and> steps_till_update st = 2)"
  by code_simp

section \<open>Configuration\<close>




end
